theory Spec2Isabelle
  imports Complex_Main
begin

section \<open>GIF background remover: the classifier\<close>

text \<open>
  The embedding follows \<^verbatim>\<open>src/gif_bg_remover.py\<close>. Colours are Python tuples of
  Python integers: the selected colour is the triple emitted by the colour picker, and a
  pixel is the first three components \<^verbatim>\<open>item[:3]\<close> of an RGBA tuple.
  Python's \<^verbatim>\<open>float\<close> arithmetic in \<^verbatim>\<open>color_within_fuzz\<close> is embedded as
  arithmetic on \<^typ>\<open>real\<close>: \<^verbatim>\<open>/\<close> is real division and \<^verbatim>\<open>** 0.5\<close> is the
  real power \<open>powr 0.5\<close>. Rounding of IEEE doubles is not part of the model.
\<close>

type_synonym color = "int \<times> int \<times> int"
type_synonym rgba = "int \<times> int \<times> int \<times> int"

definition color_within_fuzz :: "color \<Rightarrow> color \<Rightarrow> int \<Rightarrow> bool" where
  "color_within_fuzz pixel_color target_color fuzz_percentage =
     (case pixel_color of (p0, p1, p2) \<Rightarrow>
      case target_color of (t0, t1, t2) \<Rightarrow>
        let threshold = real_of_int fuzz_percentage / 100 * 255;
            r_diff = \<bar>p0 - t0\<bar>;
            g_diff = \<bar>p1 - t1\<bar>;
            b_diff = \<bar>p2 - t2\<bar>;
            distance = real_of_int (r_diff ^ 2 + g_diff ^ 2 + b_diff ^ 2) powr 0.5
        in distance \<le> threshold)"

section \<open>The processing pipeline\<close>

text \<open>
  \<^verbatim>\<open>process_gif\<close> works on what the image library has decoded. A frame is the RGBA
  image returned by \<^verbatim>\<open>frame.convert('RGBA')\<close> (its width, its height and the row-major
  pixel sequence of \<^verbatim>\<open>getdata()\<close>) together with the \<^verbatim>\<open>"duration"\<close> entry of
  \<^verbatim>\<open>frame.info\<close>, which may be absent. Sizes, indices and coordinates are never
  negative and are natural numbers.
\<close>

record rgba_image =
  im_width :: nat
  im_height :: nat
  im_data :: "rgba list"

record frame =
  convert_rgba :: rgba_image
  info_duration :: "int option"

record gif =
  width :: nat
  height :: nat
  frames :: "frame list"

record bbox =
  min_x :: nat
  min_y :: nat
  max_x :: nat
  max_y :: nat

text \<open>
  An indexed frame is a mode \<^verbatim>\<open>P\<close> image: the flat palette list of
  \<^verbatim>\<open>putpalette\<close>, one palette index per pixel and the \<^verbatim>\<open>info['transparency']\<close>
  entry. The value handed to \<^verbatim>\<open>save\<close> is the list of frames with the keyword
  arguments of the call.
\<close>

record indexed_frame =
  p_width :: nat
  p_height :: nat
  p_palette :: "int list"
  p_data :: "nat list"
  p_transparency :: nat

record saved_gif =
  saved_frames :: "indexed_frame list"
  saved_duration :: "int list"
  saved_loop :: nat
  saved_transparency :: nat
  saved_disposal :: nat

datatype py_exception = ZeroDivisionError | IndexError

datatype error = NoSelection | NoContent | ErrorProcessing py_exception

text \<open>\<^verbatim>\<open>item[:3]\<close> and \<^verbatim>\<open>pixels[i][3]\<close> of an RGBA tuple.\<close>

definition rgb_of :: "rgba \<Rightarrow> color" where
  "rgb_of item = (case item of (r, g, b, a) \<Rightarrow> (r, g, b))"

definition alpha_of :: "rgba \<Rightarrow> int" where
  "alpha_of item = (case item of (r, g, b, a) \<Rightarrow> a)"

text \<open>
  The loop over \<^verbatim>\<open>enumerate(datas)\<close>: \<^verbatim>\<open>new_data\<close> and
  \<^verbatim>\<open>non_transparent_pixels\<close> are the lists being appended to. Python's \<^verbatim>\<open>%\<close> and
  \<^verbatim>\<open>//\<close> raise on a zero divisor.
\<close>

fun classify_pixels ::
  "nat \<Rightarrow> color \<Rightarrow> int \<Rightarrow> nat \<Rightarrow> rgba list \<Rightarrow> rgba list \<Rightarrow> (nat \<times> nat) list
     \<Rightarrow> py_exception + (rgba list \<times> (nat \<times> nat) list)" where
  "classify_pixels w transparency_color fuzz index [] new_data non_transparent_pixels =
     Inr (new_data, non_transparent_pixels)"
| "classify_pixels w transparency_color fuzz index (item # rest) new_data non_transparent_pixels =
     (if color_within_fuzz (rgb_of item) transparency_color fuzz
      then classify_pixels w transparency_color fuzz (Suc index) rest
             (new_data @ [(0, 0, 0, 0)]) non_transparent_pixels
      else if w = 0 then Inl ZeroDivisionError
      else classify_pixels w transparency_color fuzz (Suc index) rest
             (new_data @ [item]) (non_transparent_pixels @ [(index mod w, index div w)]))"

text \<open>The loop over \<^verbatim>\<open>non_transparent_pixels\<close> that folds a frame into the running box.\<close>

fun update_bbox :: "(nat \<times> nat) list \<Rightarrow> bbox \<Rightarrow> bbox" where
  "update_bbox [] b = b"
| "update_bbox ((x, y) # rest) b =
     (let b1 = (if x < min_x b then b\<lparr>min_x := x\<rparr> else b);
          b2 = (if x > max_x b1 then b1\<lparr>max_x := x\<rparr> else b1);
          b3 = (if y < min_y b2 then b2\<lparr>min_y := y\<rparr> else b2);
          b4 = (if y > max_y b3 then b3\<lparr>max_y := y\<rparr> else b3)
      in update_bbox rest b4)"

definition duration_of :: "frame \<Rightarrow> int" where
  "duration_of fr = (case info_duration fr of None \<Rightarrow> 100 | Some d \<Rightarrow> d)"

text \<open>
  The loop over the frames of the image: the running box and \<^verbatim>\<open>temp_frames\<close> are
  threaded through. \<^verbatim>\<open>putdata\<close> replaces the pixels of \<^verbatim>\<open>frame_rgba\<close> and leaves
  its size alone.
\<close>

fun transparency_pass ::
  "color \<Rightarrow> int \<Rightarrow> frame list \<Rightarrow> bbox \<Rightarrow> (rgba_image \<times> int) list
     \<Rightarrow> py_exception + (bbox \<times> (rgba_image \<times> int) list)" where
  "transparency_pass transparency_color fuzz [] b temp_frames = Inr (b, temp_frames)"
| "transparency_pass transparency_color fuzz (fr # rest) b temp_frames =
     (let duration = duration_of fr;
          frame_rgba = convert_rgba fr
      in case classify_pixels (im_width frame_rgba) transparency_color fuzz 0
                (im_data frame_rgba) [] [] of
           Inl e \<Rightarrow> Inl e
         | Inr (new_data, non_transparent_pixels) \<Rightarrow>
             transparency_pass transparency_color fuzz rest
               (update_bbox non_transparent_pixels b)
               (temp_frames @ [(frame_rgba\<lparr>im_data := new_data\<rparr>, duration)]))"

text \<open>
  The library's \<^verbatim>\<open>Image.crop((left, upper, right, lower))\<close>: the result has size
  \<open>(right - left, lower - upper)\<close> and holds the pixels of the rectangle in row-major
  order; a position outside the source image reads as a zero pixel.
\<close>

definition crop :: "rgba_image \<Rightarrow> nat \<times> nat \<times> nat \<times> nat \<Rightarrow> rgba_image" where
  "crop im box =
     (case box of (left, upper, right, lower) \<Rightarrow>
        \<lparr>im_width = right - left,
         im_height = lower - upper,
         im_data = concat (map (\<lambda>y. map (\<lambda>x.
             if x < im_width im \<and> y < im_height im \<and> y * im_width im + x < length (im_data im)
             then im_data im ! (y * im_width im + x) else (0, 0, 0, 0))
           [left..<right]) [upper..<lower])\<rparr>)"

text \<open>
  Python's slice assignment \<^verbatim>\<open>xs[i:j] = ys\<close> for non-negative bounds: both bounds are
  clipped to the length of the list, so on a list shorter than \<open>i\<close> the new items are
  appended.
\<close>

definition slice_assign :: "'a list \<Rightarrow> nat \<Rightarrow> nat \<Rightarrow> 'a list \<Rightarrow> 'a list" where
  "slice_assign xs i j ys = take i xs @ ys @ drop (max i j) xs"

definition color_list :: "color \<Rightarrow> int list" where
  "color_list c = (case c of (r, g, b) \<Rightarrow> [r, g, b])"

text \<open>
  The loop \<^verbatim>\<open>for i in range(len(frame_p_data))\<close>: index \<open>i\<close> of the indexed data is
  set to 255 where pixel \<open>i\<close> of the cropped frame has alpha 0. Reading
  \<^verbatim>\<open>pixels[i]\<close> past the end raises.
\<close>

fun force_transparent :: "nat list \<Rightarrow> rgba list \<Rightarrow> py_exception + nat list" where
  "force_transparent [] pixels = Inr []"
| "force_transparent (d # ds) [] = Inl IndexError"
| "force_transparent (d # ds) (px # pixels) =
     (case force_transparent ds pixels of
        Inl e \<Rightarrow> Inl e
      | Inr ds' \<Rightarrow> Inr ((if alpha_of px = 0 then 255 else d) # ds'))"

text \<open>
  The body of the second loop for one frame. The quantizer
  \<^verbatim>\<open>convert('P', palette=Image.ADAPTIVE, colors=255)\<close> belongs to the image library and
  is a parameter: it maps the cropped frame to the palette list of \<^verbatim>\<open>getpalette()\<close>
  and the index sequence of \<^verbatim>\<open>getdata()\<close>.
\<close>

type_synonym quantizer = "rgba_image \<Rightarrow> int list \<times> nat list"

definition palette_remap ::
  "quantizer \<Rightarrow> color \<Rightarrow> rgba_image \<Rightarrow> py_exception + indexed_frame" where
  "palette_remap quantize transparency_color cropped_frame =
     (case quantize cropped_frame of (palette, frame_p_data) \<Rightarrow>
        (let palette' = slice_assign palette (255 * 3) (255 * 3 + 3) (color_list transparency_color)
         in case force_transparent frame_p_data (im_data cropped_frame) of
              Inl e \<Rightarrow> Inl e
            | Inr frame_p_data' \<Rightarrow>
                Inr \<lparr>p_width = im_width cropped_frame,
                     p_height = im_height cropped_frame,
                     p_palette = palette',
                     p_data = frame_p_data',
                     p_transparency = 255\<rparr>))"

definition crop_box :: "bbox \<Rightarrow> nat \<times> nat \<times> nat \<times> nat" where
  "crop_box b = (min_x b, min_y b, max_x b + 1, max_y b + 1)"

fun crop_frames ::
  "quantizer \<Rightarrow> color \<Rightarrow> bbox \<Rightarrow> (rgba_image \<times> int) list \<Rightarrow> indexed_frame list \<Rightarrow> int list
     \<Rightarrow> py_exception + (indexed_frame list \<times> int list)" where
  "crop_frames quantize transparency_color b [] processed_frames processed_durations =
     Inr (processed_frames, processed_durations)"
| "crop_frames quantize transparency_color b ((frame_rgba, duration) # rest)
       processed_frames processed_durations =
     (let cropped_frame = crop frame_rgba (crop_box b)
      in case palette_remap quantize transparency_color cropped_frame of
           Inl e \<Rightarrow> Inl e
         | Inr frame_p \<Rightarrow>
             crop_frames quantize transparency_color b rest
               (processed_frames @ [frame_p]) (processed_durations @ [duration]))"

definition initial_bbox :: "gif \<Rightarrow> bbox" where
  "initial_bbox img = \<lparr>min_x = width img, min_y = height img, max_x = 0, max_y = 0\<rparr>"

text \<open>
  \<^verbatim>\<open>process_gif\<close>. The first argument of the model after the quantizer is the image
  that \<^verbatim>\<open>Image.open(self.gif_path)\<close> yields, \<open>None\<close> when no path is set; the
  second is \<^verbatim>\<open>self.selected_color\<close>. The result is the value handed to
  \<^verbatim>\<open>save\<close>, or the reason why nothing is saved: every exception raised on the way is
  caught by the handler of \<^verbatim>\<open>process_gif\<close>.
\<close>

definition process_gif ::
  "quantizer \<Rightarrow> gif option \<Rightarrow> color option \<Rightarrow> int \<Rightarrow> error + saved_gif" where
  "process_gif quantize gif_path selected_color fuzz_percentage =
     (case gif_path of
        None \<Rightarrow> Inl NoSelection
      | Some img \<Rightarrow>
         (case selected_color of
            None \<Rightarrow> Inl NoSelection
          | Some transparency_color \<Rightarrow>
             (case transparency_pass transparency_color fuzz_percentage (frames img)
                     (initial_bbox img) [] of
                Inl e \<Rightarrow> Inl (ErrorProcessing e)
              | Inr (b, temp_frames) \<Rightarrow>
                  if min_x b > max_x b \<or> min_y b > max_y b then Inl NoContent
                  else
                    (case crop_frames quantize transparency_color b temp_frames [] [] of
                       Inl e \<Rightarrow> Inl (ErrorProcessing e)
                     | Inr (processed_frames, processed_durations) \<Rightarrow>
                        (case processed_frames of
                           [] \<Rightarrow> Inl (ErrorProcessing IndexError)
                         | first # append_images \<Rightarrow>
                             Inr \<lparr>saved_frames = first # append_images,
                                  saved_duration = processed_durations,
                                  saved_loop = 0,
                                  saved_transparency = 255,
                                  saved_disposal = 2\<rparr>)))))"

text \<open>The effect of the transparency pass on one pixel, as the specification words it.\<close>

definition transparent_or_copy :: "color \<Rightarrow> int \<Rightarrow> rgba \<Rightarrow> rgba" where
  "transparent_or_copy transparency_color fuzz item =
     (if color_within_fuzz (rgb_of item) transparency_color fuzz then (0, 0, 0, 0) else item)"

text \<open>
  A decoded image is well formed when its sides are positive and every frame has the
  size of the image and one pixel for each position.
\<close>

definition wf_frame :: "gif \<Rightarrow> frame \<Rightarrow> bool" where
  "wf_frame img fr \<longleftrightarrow>
     im_width (convert_rgba fr) = width img \<and> im_height (convert_rgba fr) = height img \<and>
     length (im_data (convert_rgba fr)) = width img * height img"

definition wf_gif :: "gif \<Rightarrow> bool" where
  "wf_gif img \<longleftrightarrow> 0 < width img \<and> 0 < height img \<and> list_all (wf_frame img) (frames img)"

text \<open>The test of \<^verbatim>\<open>process_gif\<close> after the pass, negated: the box holds a pixel.\<close>

definition nonempty_bbox :: "bbox \<Rightarrow> bool" where
  "nonempty_bbox b \<longleftrightarrow> min_x b \<le> max_x b \<and> min_y b \<le> max_y b"

text \<open>The frame that the transparency pass stores for an input frame.\<close>

definition pass_frame :: "color \<Rightarrow> int \<Rightarrow> frame \<Rightarrow> rgba_image \<times> int" where
  "pass_frame tc fz fr =
     ((convert_rgba fr)\<lparr>im_data := map (transparent_or_copy tc fz) (im_data (convert_rgba fr))\<rparr>, duration_of fr)"

subsection \<open>Example inputs\<close>

text \<open>
  A two-frame image of size \<open>3 \<times> 2\<close> whose background colour is \<open>(1, 2, 3)\<close>: the
  first frame has one foreground pixel at \<open>(1, 0)\<close>, the second one at \<open>(2, 0)\<close> and no
  duration entry. Its frames after the transparency pass at fuzz 0, the bounding box of
  the pass, and what is saved for it with a quantizer that returns a full table of 256
  palette entries and assigns index 7 to every pixel.
\<close>

definition example_gif :: gif where
  "example_gif =
     \<lparr>width = 3, height = 2,
      frames =
        [\<lparr>convert_rgba = \<lparr>im_width = 3, im_height = 2,
             im_data = [(1, 2, 3, 255), (9, 9, 9, 255), (1, 2, 3, 255),
                        (1, 2, 3, 255), (1, 2, 3, 255), (1, 2, 3, 255)]\<rparr>,
          info_duration = Some 40\<rparr>,
         \<lparr>convert_rgba = \<lparr>im_width = 3, im_height = 2,
             im_data = [(1, 2, 3, 255), (1, 2, 3, 255), (8, 8, 8, 255),
                        (1, 2, 3, 255), (1, 2, 3, 255), (1, 2, 3, 255)]\<rparr>,
          info_duration = None\<rparr>]\<rparr>"



definition example_quantizer :: quantizer where
  "example_quantizer cropped = (replicate 768 0, replicate (length (im_data cropped)) 7)"





text \<open>A single solid frame of size \<open>10 \<times> 10\<close>.\<close>

definition solid_gif :: gif where
  "solid_gif =
     \<lparr>width = 10, height = 10,
      frames = [\<lparr>convert_rgba = \<lparr>im_width = 10, im_height = 10,
                    im_data = replicate 100 (7, 8, 9, 255)\<rparr>,
                 info_duration = Some 40\<rparr>]\<rparr>"

subsection \<open>The classifier in integer arithmetic\<close>

lemma sqrt_le_iff_sq: "0 \<le> n \<Longrightarrow> sqrt n \<le> t \<longleftrightarrow> 0 \<le> t \<and> n \<le> t\<^sup>2"
proof
  assume n: "0 \<le> n" and le: "sqrt n \<le> t"
  have t: "0 \<le> t" using le real_sqrt_ge_zero [OF n] by linarith
  have "(sqrt n)\<^sup>2 \<le> t\<^sup>2"
    using le real_sqrt_ge_zero [OF n] by (intro power_mono) auto
  with n t show "0 \<le> t \<and> n \<le> t\<^sup>2" by simp
next
  assume n: "0 \<le> n" and h: "0 \<le> t \<and> n \<le> t\<^sup>2"
  then show "sqrt n \<le> t" by (simp add: real_le_lsqrt)
qed

lemma sum_squares_nonneg: "0 \<le> (a::int)\<^sup>2 + b\<^sup>2 + c\<^sup>2"
  by simp

lemma color_within_fuzz_sqrt:
  "color_within_fuzz (p0, p1, p2) (t0, t1, t2) f \<longleftrightarrow>
     sqrt (real_of_int ((p0 - t0)\<^sup>2 + (p1 - t1)\<^sup>2 + (p2 - t2)\<^sup>2)) \<le> real_of_int f / 100 * 255"
proof -
  have "0 \<le> real_of_int ((p0 - t0)\<^sup>2 + (p1 - t1)\<^sup>2 + (p2 - t2)\<^sup>2)"
    using sum_squares_nonneg [of "p0 - t0" "p1 - t1" "p2 - t2"] by linarith
  then have "real_of_int ((p0 - t0)\<^sup>2 + (p1 - t1)\<^sup>2 + (p2 - t2)\<^sup>2) powr (1 / 2) =
      sqrt (real_of_int ((p0 - t0)\<^sup>2 + (p1 - t1)\<^sup>2 + (p2 - t2)\<^sup>2))"
    by (rule powr_half_sqrt)
  then show ?thesis
    by (simp add: color_within_fuzz_def Let_def)
qed

lemma color_within_fuzz_int:
  "color_within_fuzz (p0, p1, p2) (t0, t1, t2) f \<longleftrightarrow>
     0 \<le> f \<and> 400 * ((p0 - t0)\<^sup>2 + (p1 - t1)\<^sup>2 + (p2 - t2)\<^sup>2) \<le> (51 * f)\<^sup>2"
proof -
  define n where "n = (p0 - t0)\<^sup>2 + (p1 - t1)\<^sup>2 + (p2 - t2)\<^sup>2"
  have n0: "0 \<le> real_of_int n"
    unfolding n_def using sum_squares_nonneg [of "p0 - t0" "p1 - t1" "p2 - t2"] by linarith
  have sq: "(real_of_int f / 100 * 255)\<^sup>2 = real_of_int ((51 * f)\<^sup>2) / 400"
    by (simp add: power2_eq_square field_simps)
  have "color_within_fuzz (p0, p1, p2) (t0, t1, t2) f \<longleftrightarrow>
      sqrt (real_of_int n) \<le> real_of_int f / 100 * 255"
    unfolding n_def by (rule color_within_fuzz_sqrt)
  also have "\<dots> \<longleftrightarrow> 0 \<le> real_of_int f / 100 * 255 \<and> real_of_int n \<le> (real_of_int f / 100 * 255)\<^sup>2"
    by (rule sqrt_le_iff_sq [OF n0])
  also have "\<dots> \<longleftrightarrow> 0 \<le> f \<and> real_of_int (400 * n) \<le> real_of_int ((51 * f)\<^sup>2)"
    unfolding sq by (simp add: field_simps)
  also have "\<dots> \<longleftrightarrow> 0 \<le> f \<and> 400 * n \<le> (51 * f)\<^sup>2"
    by (simp only: of_int_le_iff)
  finally show ?thesis unfolding n_def .
qed

subsection \<open>The pixel loop\<close>

lemma rgb_of_simp: "rgb_of (r, g, b, a) = (r, g, b)"
  by (simp add: rgb_of_def)


lemma classify_pixels_new_data:
  "classify_pixels w tc fz i ds nd ntp = Inr (nd', ntp') \<Longrightarrow>
     nd' = nd @ map (transparent_or_copy tc fz) ds"
proof (induction ds arbitrary: i nd ntp)
  case Nil
  then show ?case by simp
next
  case (Cons item rest)
  show ?case
  proof (cases "color_within_fuzz (rgb_of item) tc fz")
    case True
    with Cons.prems
    have "classify_pixels w tc fz (Suc i) rest (nd @ [(0, 0, 0, 0)]) ntp = Inr (nd', ntp')"
      by simp
    from Cons.IH [OF this] True show ?thesis
      by (simp add: transparent_or_copy_def)
  next
    case False
    with Cons.prems
    have "classify_pixels w tc fz (Suc i) rest (nd @ [item]) (ntp @ [(i mod w, i div w)])
        = Inr (nd', ntp')"
      by (simp split: if_splits)
    from Cons.IH [OF this] False show ?thesis
      by (simp add: transparent_or_copy_def)
  qed
qed

lemma classify_pixels_total:
  "0 < w \<or> ds = [] \<Longrightarrow> \<exists>nd' ntp'. classify_pixels w tc fz i ds nd ntp = Inr (nd', ntp')"
  by (induction ds arbitrary: i nd ntp) auto


lemma classify_pixels_all_background:
  "list_all (\<lambda>item. color_within_fuzz (rgb_of item) tc fz) ds \<Longrightarrow>
     classify_pixels w tc fz i ds nd ntp = Inr (nd @ replicate (length ds) (0, 0, 0, 0), ntp)"
  by (induction ds arbitrary: i nd) (auto simp: replicate_append_same)

lemma classify_pixels_records_foreground:
  "classify_pixels w tc fz i ds nd ntp = Inr (nd', ntp') \<Longrightarrow>
     \<exists>more. ntp' = ntp @ more \<and>
       ((\<exists>item \<in> set ds. \<not> color_within_fuzz (rgb_of item) tc fz) \<longrightarrow> more \<noteq> [])"
proof (induction ds arbitrary: i nd ntp)
  case Nil
  then show ?case by simp
next
  case (Cons item rest)
  show ?case
  proof (cases "color_within_fuzz (rgb_of item) tc fz")
    case True
    with Cons.prems
    have "classify_pixels w tc fz (Suc i) rest (nd @ [(0, 0, 0, 0)]) ntp = Inr (nd', ntp')"
      by simp
    from Cons.IH [OF this] True show ?thesis by auto
  next
    case False
    with Cons.prems
    have "classify_pixels w tc fz (Suc i) rest (nd @ [item]) (ntp @ [(i mod w, i div w)])
        = Inr (nd', ntp')"
      by (simp split: if_splits)
    from Cons.IH [OF this] show ?thesis by auto
  qed
qed

subsection \<open>The bounding box and the transparency pass\<close>

lemma update_bbox_nonempty:
  "ps \<noteq> [] \<or> nonempty_bbox b \<Longrightarrow> nonempty_bbox (update_bbox ps b)"
proof (induction ps arbitrary: b)
  case Nil
  then show ?case by simp
next
  case (Cons p ps)
  obtain x y where p: "p = (x, y)" by (cases p)
  define b4 where "b4 =
     (let b1 = (if x < min_x b then b\<lparr>min_x := x\<rparr> else b);
          b2 = (if x > max_x b1 then b1\<lparr>max_x := x\<rparr> else b1);
          b3 = (if y < min_y b2 then b2\<lparr>min_y := y\<rparr> else b2)
      in (if y > max_y b3 then b3\<lparr>max_y := y\<rparr> else b3))"
  have step: "update_bbox (p # ps) b = update_bbox ps b4"
    by (simp add: p b4_def Let_def)
  have "nonempty_bbox b4"
    by (auto simp: b4_def Let_def nonempty_bbox_def)
  then have "ps \<noteq> [] \<or> nonempty_bbox b4" by simp
  from Cons.IH [OF this] show ?case
    by (simp only: step)
qed


lemma transparency_pass_temp_frames:
  "transparency_pass tc fz frs b temps = Inr (b', temps') \<Longrightarrow>
     temps' = temps @ map (pass_frame tc fz) frs"
proof (induction frs arbitrary: b temps)
  case Nil
  then show ?case by simp
next
  case (Cons fr rest)
  from Cons.prems obtain new_data ntp where
    cl: "classify_pixels (im_width (convert_rgba fr)) tc fz 0 (im_data (convert_rgba fr)) [] [] = Inr (new_data, ntp)"
    and rec: "transparency_pass tc fz rest (update_bbox ntp b)
        (temps @ [((convert_rgba fr)\<lparr>im_data := new_data\<rparr>, duration_of fr)]) = Inr (b', temps')"
    by (auto simp: Let_def split: sum.splits)
  from classify_pixels_new_data [OF cl]
  have "new_data = map (transparent_or_copy tc fz) (im_data (convert_rgba fr))" by simp
  with Cons.IH [OF rec] show ?case
    by (simp add: pass_frame_def)
qed

lemma transparency_pass_total:
  "list_all (\<lambda>fr. 0 < im_width (convert_rgba fr) \<or> im_data (convert_rgba fr) = []) frs \<Longrightarrow>
     \<exists>b' temps'. transparency_pass tc fz frs b temps = Inr (b', temps')"
proof (induction frs arbitrary: b temps)
  case Nil
  then show ?case by simp
next
  case (Cons fr rest)
  from Cons.prems have "0 < im_width (convert_rgba fr) \<or> im_data (convert_rgba fr) = []" by simp
  from classify_pixels_total [OF this] obtain new_data ntp where
    cl: "classify_pixels (im_width (convert_rgba fr)) tc fz 0 (im_data (convert_rgba fr)) [] [] = Inr (new_data, ntp)"
    by blast
  from Cons.prems have "list_all (\<lambda>fr. 0 < im_width (convert_rgba fr) \<or> im_data (convert_rgba fr) = []) rest"
    by simp
  from Cons.IH [OF this] cl show ?case
    by (simp add: Let_def)
qed


lemma transparency_pass_nonempty:
  "transparency_pass tc fz frs b temps = Inr (b', temps') \<Longrightarrow>
   nonempty_bbox b \<or> (\<exists>fr \<in> set frs. \<exists>item \<in> set (im_data (convert_rgba fr)).
       \<not> color_within_fuzz (rgb_of item) tc fz) \<Longrightarrow>
     nonempty_bbox b'"
proof (induction frs arbitrary: b temps)
  case Nil
  then show ?case by simp
next
  case (Cons fr rest)
  from Cons.prems(1) obtain new_data ntp where
    cl: "classify_pixels (im_width (convert_rgba fr)) tc fz 0 (im_data (convert_rgba fr)) [] []
        = Inr (new_data, ntp)"
    and rec: "transparency_pass tc fz rest (update_bbox ntp b)
        (temps @ [((convert_rgba fr)\<lparr>im_data := new_data\<rparr>, duration_of fr)]) = Inr (b', temps')"
    by (auto simp: Let_def split: sum.splits)
  from classify_pixels_records_foreground [OF cl]
  have fg: "(\<exists>item \<in> set (im_data (convert_rgba fr)). \<not> color_within_fuzz (rgb_of item) tc fz)
      \<longrightarrow> ntp \<noteq> []"
    by simp
  have "nonempty_bbox (update_bbox ntp b) \<or>
      (\<exists>fr \<in> set rest. \<exists>item \<in> set (im_data (convert_rgba fr)).
         \<not> color_within_fuzz (rgb_of item) tc fz)"
  proof (cases "ntp \<noteq> [] \<or> nonempty_bbox b")
    case True
    from update_bbox_nonempty [OF this] show ?thesis by simp
  next
    case False
    with fg Cons.prems(2) show ?thesis by auto
  qed
  from Cons.IH [OF rec this] show ?case .
qed

subsection \<open>Palette and index remapping\<close>

lemma force_transparent_length:
  "force_transparent ds pixels = Inr ds' \<Longrightarrow> length ds' = length ds \<and> length ds \<le> length pixels"
proof (induction ds pixels arbitrary: ds' rule: force_transparent.induct)
  case (1 pixels)
  then show ?case by simp
next
  case (2 d ds)
  then show ?case by simp
next
  case (3 d ds px pixels)
  from "3.prems" obtain r where r: "force_transparent ds pixels = Inr r"
    and ds': "ds' = (if alpha_of px = 0 then 255 else d) # r"
    by (auto split: sum.splits)
  from "3.IH" [OF r] ds' show ?case by simp
qed

lemma force_transparent_nth:
  "force_transparent ds pixels = Inr ds' \<Longrightarrow> i < length ds \<Longrightarrow>
     ds' ! i = (if alpha_of (pixels ! i) = 0 then 255 else ds ! i)"
proof (induction ds pixels arbitrary: ds' i rule: force_transparent.induct)
  case (1 pixels)
  then show ?case by simp
next
  case (2 d ds)
  then show ?case by simp
next
  case (3 d ds px pixels)
  from "3.prems"(1) obtain r where r: "force_transparent ds pixels = Inr r"
    and ds': "ds' = (if alpha_of px = 0 then 255 else d) # r"
    by (auto split: sum.splits)
  show ?case
  proof (cases i)
    case 0
    with ds' show ?thesis by simp
  next
    case (Suc j)
    with "3.prems"(2) have "j < length ds" by simp
    from "3.IH" [OF r this] ds' Suc show ?thesis by simp
  qed
qed

lemma force_transparent_total:
  "length ds \<le> length pixels \<Longrightarrow> \<exists>ds'. force_transparent ds pixels = Inr ds'"
  by (induction ds pixels rule: force_transparent.induct) auto

lemma slice_assign_entry_255:
  "765 \<le> length palette \<Longrightarrow>
     take 3 (drop 765 (slice_assign palette (255 * 3) (255 * 3 + 3) [r, g, b])) = [r, g, b]"
  by (simp add: slice_assign_def)

lemma slice_assign_short:
  "length palette \<le> 765 \<Longrightarrow> slice_assign palette (255 * 3) (255 * 3 + 3) ys = palette @ ys"
  by (simp add: slice_assign_def)

lemma palette_remap_Inr:
  assumes "palette_remap quantize tc cropped = Inr fp"
  shows "p_width fp = im_width cropped" "p_height fp = im_height cropped"
    "p_palette fp = slice_assign (fst (quantize cropped)) (255 * 3) (255 * 3 + 3) (color_list tc)"
    "force_transparent (snd (quantize cropped)) (im_data cropped) = Inr (p_data fp)"
    "p_transparency fp = 255"
  using assms
  by (auto simp: palette_remap_def Let_def split: prod.splits sum.splits)

lemma palette_remap_properties:
  assumes pr: "palette_remap quantize (r, g, b) cropped = Inr fp"
  shows "(765 \<le> length (fst (quantize cropped)) \<longrightarrow> take 3 (drop 765 (p_palette fp)) = [r, g, b])
    \<and> length (p_data fp) = length (snd (quantize cropped))
    \<and> (\<forall>i < length (snd (quantize cropped)).
          p_data fp ! i = (if alpha_of (im_data cropped ! i) = 0 then 255
                           else snd (quantize cropped) ! i))
    \<and> p_transparency fp = 255"
proof (intro conjI impI allI)
  assume "765 \<le> length (fst (quantize cropped))"
  from slice_assign_entry_255 [OF this] palette_remap_Inr(3) [OF pr]
  show "take 3 (drop 765 (p_palette fp)) = [r, g, b]"
    by (simp add: color_list_def)
next
  from force_transparent_length [OF palette_remap_Inr(4) [OF pr]]
  show "length (p_data fp) = length (snd (quantize cropped))" by simp
next
  fix i assume "i < length (snd (quantize cropped))"
  from force_transparent_nth [OF palette_remap_Inr(4) [OF pr] this]
  show "p_data fp ! i = (if alpha_of (im_data cropped ! i) = 0 then 255
                           else snd (quantize cropped) ! i)" .
next
  from palette_remap_Inr(5) [OF pr] show "p_transparency fp = 255" .
qed


lemma crop_frames_result:
  "crop_frames quantize tc b temps pf pd = Inr (pf', pd') \<Longrightarrow>
     pd' = pd @ map snd temps \<and>
     (\<exists>new. pf' = pf @ new \<and>
        list_all2 (\<lambda>t fp. palette_remap quantize tc (crop (fst t) (crop_box b)) = Inr fp) temps new)"
proof (induction temps arbitrary: pf pd)
  case Nil
  then show ?case by simp
next
  case (Cons t rest)
  obtain frame_rgba duration where t: "t = (frame_rgba, duration)" by (cases t)
  from Cons.prems t obtain frame_p where
    pr: "palette_remap quantize tc (crop frame_rgba (crop_box b)) = Inr frame_p"
    and rec: "crop_frames quantize tc b rest (pf @ [frame_p]) (pd @ [duration]) = Inr (pf', pd')"
    by (auto simp: Let_def split: sum.splits)
  from Cons.IH [OF rec] obtain new where
    pd': "pd' = (pd @ [duration]) @ map snd rest"
    and pf': "pf' = (pf @ [frame_p]) @ new"
    and rel: "list_all2 (\<lambda>t fp. palette_remap quantize tc (crop (fst t) (crop_box b)) = Inr fp) rest new"
    by blast
  from pf' have "pf' = pf @ (frame_p # new)" by simp
  moreover from pr rel t
  have "list_all2 (\<lambda>t fp. palette_remap quantize tc (crop (fst t) (crop_box b)) = Inr fp)
      (t # rest) (frame_p # new)"
    by simp
  ultimately show ?case using pd' t by auto
qed

lemma palette_remap_total:
  "length (snd (quantize cropped)) \<le> length (im_data cropped) \<Longrightarrow>
     \<exists>fp. palette_remap quantize tc cropped = Inr fp"
proof -
  assume "length (snd (quantize cropped)) \<le> length (im_data cropped)"
  from force_transparent_total [OF this] obtain ds' where
    "force_transparent (snd (quantize cropped)) (im_data cropped) = Inr ds'" by blast
  then show ?thesis
    by (cases "quantize cropped") (simp add: palette_remap_def Let_def)
qed

lemma crop_frames_total:
  "\<forall>cropped. length (snd (quantize cropped)) \<le> length (im_data cropped) \<Longrightarrow>
     \<exists>pf' pd'. crop_frames quantize tc b temps pf pd = Inr (pf', pd')"
proof (induction temps arbitrary: pf pd)
  case Nil
  then show ?case by simp
next
  case (Cons t rest)
  obtain frame_rgba duration where t: "t = (frame_rgba, duration)" by (cases t)
  from Cons.prems have "length (snd (quantize (crop frame_rgba (crop_box b))))
      \<le> length (im_data (crop frame_rgba (crop_box b)))"
    by blast
  from palette_remap_total [of quantize "crop frame_rgba (crop_box b)" tc, OF this] obtain fp where
    "palette_remap quantize tc (crop frame_rgba (crop_box b)) = Inr fp" by blast
  with Cons.IH [OF Cons.prems] show ?case
    by (simp add: t Let_def)
qed

subsection \<open>A successful run\<close>

lemma process_gif_Inr:
  assumes "process_gif quantize (Some img) (Some tc) fz = Inr out"
  obtains b temps where
    "transparency_pass tc fz (frames img) (initial_bbox img) [] = Inr (b, temps)"
    "min_x b \<le> max_x b" "min_y b \<le> max_y b"
    "crop_frames quantize tc b temps [] [] = Inr (saved_frames out, saved_duration out)"
    "saved_frames out \<noteq> []" "saved_loop out = 0" "saved_transparency out = 255"
    "saved_disposal out = 2"
proof -
  from assms obtain b temps where
    tp: "transparency_pass tc fz (frames img) (initial_bbox img) [] = Inr (b, temps)"
    by (auto simp: process_gif_def split: sum.splits)
  from assms tp have box: "min_x b \<le> max_x b" "min_y b \<le> max_y b"
    by (auto simp: process_gif_def split: if_splits)
  from assms tp box obtain pf pd where
    cf: "crop_frames quantize tc b temps [] [] = Inr (pf, pd)"
    by (auto simp: process_gif_def split: sum.splits if_splits)
  from assms tp box cf have "pf \<noteq> []"
    and out: "out = \<lparr>saved_frames = pf, saved_duration = pd, saved_loop = 0,
         saved_transparency = 255, saved_disposal = 2\<rparr>"
    by (auto simp: process_gif_def split: list.splits if_splits)
  with tp box cf that show thesis by simp
qed

lemma process_gif_durations:
  assumes "process_gif quantize (Some img) (Some tc) fz = Inr out"
  shows "saved_duration out =
      map (\<lambda>fr. case info_duration fr of None \<Rightarrow> 100 | Some d \<Rightarrow> d) (frames img)
    \<and> length (saved_frames out) = length (frames img)"
proof -
  from assms obtain b temps where
    tp: "transparency_pass tc fz (frames img) (initial_bbox img) [] = Inr (b, temps)"
    and cf: "crop_frames quantize tc b temps [] [] = Inr (saved_frames out, saved_duration out)"
    by (rule process_gif_Inr)
  from transparency_pass_temp_frames [OF tp]
  have temps: "temps = map (pass_frame tc fz) (frames img)" by simp
  from crop_frames_result [OF cf] obtain new where
    d: "saved_duration out = map snd temps" and new: "saved_frames out = new"
    and rel: "list_all2 (\<lambda>t fp. palette_remap quantize tc (crop (fst t) (crop_box b)) = Inr fp)
        temps new"
    by auto
  from rel new have "length (saved_frames out) = length temps"
    by (simp add: list_all2_lengthD)
  moreover have "map snd temps = map duration_of (frames img)"
    by (simp add: temps pass_frame_def)
  ultimately show ?thesis
    using d temps by (simp add: duration_of_def [abs_def])
qed

lemma process_gif_total:
  assumes wf: "wf_gif img"
    and fg: "\<exists>fr \<in> set (frames img). \<exists>item \<in> set (im_data (convert_rgba fr)).
        \<not> color_within_fuzz (rgb_of item) tc fz"
    and q: "\<forall>cropped. length (snd (quantize cropped)) \<le> length (im_data cropped)"
  shows "\<exists>out. process_gif quantize (Some img) (Some tc) fz = Inr out"
proof -
  have "list_all (\<lambda>fr. 0 < im_width (convert_rgba fr) \<or> im_data (convert_rgba fr) = [])
      (frames img)"
    using wf by (auto simp: wf_gif_def wf_frame_def list_all_iff)
  from transparency_pass_total [OF this] obtain b temps where
    tp: "transparency_pass tc fz (frames img) (initial_bbox img) [] = Inr (b, temps)"
    by blast
  from fg have "nonempty_bbox (initial_bbox img) \<or>
      (\<exists>fr \<in> set (frames img). \<exists>item \<in> set (im_data (convert_rgba fr)).
        \<not> color_within_fuzz (rgb_of item) tc fz)"
    by (rule disjI2)
  from transparency_pass_nonempty [OF tp this]
  have box: "\<not> (min_x b > max_x b \<or> min_y b > max_y b)"
    by (auto simp: nonempty_bbox_def)
  from crop_frames_total [OF q] obtain pf pd where
    cf: "crop_frames quantize tc b temps [] [] = Inr (pf, pd)"
    by blast
  from crop_frames_result [OF cf] have "length pf = length temps"
    by (auto simp: list_all2_lengthD)
  moreover from transparency_pass_temp_frames [OF tp] have "length temps = length (frames img)"
    by simp
  moreover from fg have "frames img \<noteq> []" by auto
  ultimately have "pf \<noteq> []" by auto
  then obtain first append_images where pf: "pf = first # append_images"
    by (cases pf) auto
  show ?thesis
    using tp box cf pf by (simp add: process_gif_def)
qed

subsection \<open>The examples evaluated\<close>

lemma example_foreground:
  "\<exists>fr \<in> set (frames example_gif). \<exists>item \<in> set (im_data (convert_rgba fr)).
      \<not> color_within_fuzz (rgb_of item) (1, 2, 3) 0"
  by (simp add: example_gif_def rgb_of_simp color_within_fuzz_int)

lemma example_quantizer_length:
  "\<forall>cropped. length (snd (example_quantizer cropped)) \<le> length (im_data cropped)"
  by (simp add: example_quantizer_def)



lemma example_wf: "wf_gif example_gif"
  by (simp add: wf_gif_def wf_frame_def example_gif_def)




lemma solid_pass:
  "transparency_pass (7, 8, 9) 0 (frames solid_gif) (initial_bbox solid_gif) [] =
     Inr (\<lparr>min_x = 10, min_y = 10, max_x = 0, max_y = 0\<rparr>,
          [(\<lparr>im_width = 10, im_height = 10, im_data = replicate 100 (0, 0, 0, 0)\<rparr>, 40)])"
proof -
  have "list_all (\<lambda>item. color_within_fuzz (rgb_of item) (7, 8, 9) 0)
      (replicate 100 (7, 8, 9, 255))"
    by (simp add: list_all_iff rgb_of_simp color_within_fuzz_int)
  from classify_pixels_all_background [OF this, of 10 0 "[]" "[]"] show ?thesis
    by (simp add: solid_gif_def initial_bbox_def duration_of_def Let_def)
qed

section \<open>Properties of the classifier\<close>

text \<open>
  Claim C1. For every pixel colour, target colour and fuzz percentage, the classifier
  returns true if and only if the Euclidean distance
  \<open>sqrt ((r1 - r2)\<^sup>2 + (g1 - g2)\<^sup>2 + (b1 - b2)\<^sup>2)\<close> over the RGB channels is less than
  or equal to \<open>fuzz / 100 * 255\<close>; a distance exactly equal to the threshold counts as
  background. The statement holds for all integer channel values and all integer fuzz
  values, so in particular for 8-bit channels and fuzz in \<open>[0, 100]\<close>.
\<close>

theorem classifier_euclidean_distance:
  "color_within_fuzz (r1, g1, b1) (r2, g2, b2) fuzz \<longleftrightarrow>
     sqrt (real_of_int ((r1 - r2)\<^sup>2 + (g1 - g2)\<^sup>2 + (b1 - b2)\<^sup>2))
       \<le> real_of_int fuzz / 100 * 255"
  by (rule color_within_fuzz_sqrt)

text \<open>
  Claim C3, as stated: at fuzz 100 every pixel colour is background for every target.
  This fails: the threshold at fuzz 100 is 255, and black against white is at distance
  \<open>255 * sqrt 3\<close>.
\<close>

theorem fuzz_100_black_white_counterexample:
  "\<not> color_within_fuzz (0, 0, 0) (255, 255, 255) 100"
  by (simp add: color_within_fuzz_int)

text \<open>
  Claim C3, amended: at fuzz 100 a pixel colour is classified as background exactly when
  its Euclidean distance to the target is at most 255, that is when the sum of the squared
  channel differences is at most \<open>255\<^sup>2\<close>.
\<close>

theorem fuzz_100_threshold_255:
  "color_within_fuzz (r1, g1, b1) (r2, g2, b2) 100 \<longleftrightarrow>
     (r1 - r2)\<^sup>2 + (g1 - g2)\<^sup>2 + (b1 - b2)\<^sup>2 \<le> 255\<^sup>2"
proof -
  have scale: "400 * n \<le> (51 * 100)\<^sup>2 \<longleftrightarrow> n \<le> 255\<^sup>2" for n :: int
    by simp
  show ?thesis
    unfolding color_within_fuzz_int scale by simp
qed

text \<open>
  Claim C4. At fuzz 0 the classifier returns true exactly when the pixel's RGB triple
  equals the target's: \<open>is_background C C 0\<close> holds, and \<open>is_background C' C 0\<close> fails
  for every \<open>C' \<noteq> C\<close>.
\<close>

theorem fuzz_0_exact_match:
  "color_within_fuzz c' c 0 \<longleftrightarrow> c' = c"
proof -
  obtain p0 p1 p2 where c': "c' = (p0, p1, p2)" by (cases c') auto
  obtain t0 t1 t2 where c: "c = (t0, t1, t2)" by (cases c) auto
  have "(p0 - t0)\<^sup>2 + (p1 - t1)\<^sup>2 + (p2 - t2)\<^sup>2 \<le> 0 \<longleftrightarrow> p0 = t0 \<and> p1 = t1 \<and> p2 = t2"
  proof
    assume le: "(p0 - t0)\<^sup>2 + (p1 - t1)\<^sup>2 + (p2 - t2)\<^sup>2 \<le> 0"
    have "0 \<le> (p0 - t0)\<^sup>2" "0 \<le> (p1 - t1)\<^sup>2" "0 \<le> (p2 - t2)\<^sup>2" by simp_all
    with le have "(p0 - t0)\<^sup>2 = 0" "(p1 - t1)\<^sup>2 = 0" "(p2 - t2)\<^sup>2 = 0" by linarith+
    then show "p0 = t0 \<and> p1 = t1 \<and> p2 = t2" by simp
  next
    assume "p0 = t0 \<and> p1 = t1 \<and> p2 = t2"
    then show "(p0 - t0)\<^sup>2 + (p1 - t1)\<^sup>2 + (p2 - t2)\<^sup>2 \<le> 0" by simp
  qed
  moreover have scale: "400 * n \<le> (51 * 0)\<^sup>2 \<longleftrightarrow> n \<le> 0" for n :: int
    by simp
  ultimately show ?thesis
    unfolding c c' color_within_fuzz_int scale by simp
qed

text \<open>
  Claim C5. The classifier is monotone in fuzz: for a fixed pixel colour and target
  colour and fuzz values \<open>f1 \<le> f2\<close>, a pixel that is background at \<open>f1\<close> is background
  at \<open>f2\<close>.
\<close>

theorem classifier_monotone_in_fuzz:
  assumes "f1 \<le> f2" and "color_within_fuzz pixel target f1"
  shows "color_within_fuzz pixel target f2"
proof -
  obtain p0 p1 p2 where p: "pixel = (p0, p1, p2)" by (cases pixel) auto
  obtain t0 t1 t2 where t: "target = (t0, t1, t2)" by (cases target) auto
  define n where "n = (p0 - t0)\<^sup>2 + (p1 - t1)\<^sup>2 + (p2 - t2)\<^sup>2"
  from assms(2) have f1: "0 \<le> f1" and le: "400 * n \<le> (51 * f1)\<^sup>2"
    unfolding p t n_def color_within_fuzz_int by blast+
  from f1 assms(1) have "0 \<le> 51 * f1" "51 * f1 \<le> 51 * f2" by simp_all
  then have "(51 * f1)\<^sup>2 \<le> (51 * f2)\<^sup>2" by (rule power_mono [rotated])
  with le have "400 * n \<le> (51 * f2)\<^sup>2" by (rule order_trans)
  moreover from f1 assms(1) have "0 \<le> f2" by (rule order_trans)
  ultimately show ?thesis
    unfolding p t n_def color_within_fuzz_int by blast
qed

theorem classifier_monotone_in_fuzz_witness:
  "(10::int) \<le> 20 \<and> color_within_fuzz (10, 0, 0) (0, 0, 0) 10
     \<and> color_within_fuzz (10, 0, 0) (0, 0, 0) 20"
proof -
  have h1: "(10::int) \<le> 20" by simp
  have h2: "color_within_fuzz (10, 0, 0) (0, 0, 0) 10"
    by (simp add: color_within_fuzz_int)
  from h1 h2 classifier_monotone_in_fuzz [OF h1 h2] show ?thesis by simp
qed

text \<open>
  Claim C10. The classifier is symmetric in its two colour arguments:
  \<open>is_background P T f = is_background T P f\<close> for every pixel colour, target colour and
  fuzz percentage.
\<close>

theorem classifier_symmetric:
  "color_within_fuzz p t f = color_within_fuzz t p f"
proof -
  obtain p0 p1 p2 where p: "p = (p0, p1, p2)" by (cases p) auto
  obtain t0 t1 t2 where t: "t = (t0, t1, t2)" by (cases t) auto
  show ?thesis
    unfolding p t color_within_fuzz_int
    by (simp only: power2_commute [of p0 t0] power2_commute [of p1 t1] power2_commute [of p2 t2])
qed

section \<open>Properties of the pipeline\<close>

text \<open>
  Claim C2. If, after the transparency pass over all frames, the running bounding box
  satisfies \<open>min_x > max_x\<close> or \<open>min_y > max_y\<close>, processing signals the no-content
  condition and stops before cropping and encoding: nothing is handed to \<^verbatim>\<open>save\<close>,
  whatever the quantizer.
\<close>

theorem no_content_aborts:
  assumes "transparency_pass tc fz (frames img) (initial_bbox img) [] = Inr (bx, temp_frames)"
    and "min_x bx > max_x bx \<or> min_y bx > max_y bx"
  shows "process_gif quantize (Some img) (Some tc) fz = Inl NoContent"
  using assms by (simp add: process_gif_def)

text \<open>
  The solid \<open>10 \<times> 10\<close> frame with its own colour selected at fuzz 0: the box stays at
  its initial value \<open>(10, 10, 0, 0)\<close> and the run ends with the no-content condition.
\<close>

theorem no_content_aborts_witness:
  "transparency_pass (7, 8, 9) 0 (frames solid_gif) (initial_bbox solid_gif) [] =
     Inr (\<lparr>min_x = 10, min_y = 10, max_x = 0, max_y = 0\<rparr>,
          [(\<lparr>im_width = 10, im_height = 10, im_data = replicate 100 (0, 0, 0, 0)\<rparr>, 40)])
   \<and> process_gif example_quantizer (Some solid_gif) (Some (7, 8, 9)) 0 = Inl NoContent"
proof -
  have box: "min_x \<lparr>min_x = 10, min_y = 10, max_x = 0, max_y = 0\<rparr>
        > max_x \<lparr>min_x = 10, min_y = 10, max_x = 0, max_y = 0\<rparr>
      \<or> min_y \<lparr>min_x = 10, min_y = 10, max_x = 0, max_y = 0\<rparr>
        > max_y \<lparr>min_x = 10, min_y = 10, max_x = 0, max_y = 0\<rparr>"
    by simp
  from solid_pass no_content_aborts [OF solid_pass box] show ?thesis
    by (rule conjI)
qed

text \<open>
  Claim C6. For every input frame the transparency pass produces an RGBA frame of the
  same width and height in which every pixel classified as background is exactly
  \<open>(0, 0, 0, 0)\<close> and every other pixel is copied unchanged, alpha included; no other
  pixel value occurs. The pass returns for every list of frames that hold one pixel for
  each position.
\<close>

theorem transparency_pass_frames:
  assumes "list_all (\<lambda>fr. length (im_data (convert_rgba fr)) =
      im_width (convert_rgba fr) * im_height (convert_rgba fr)) frs"
  shows "\<exists>bx' temp_frames.
      transparency_pass tc fz frs bx [] = Inr (bx', temp_frames) \<and>
      list_all2 (\<lambda>fr out.
          im_width out = im_width (convert_rgba fr) \<and>
          im_height out = im_height (convert_rgba fr) \<and>
          im_data out = map (\<lambda>item. if color_within_fuzz (rgb_of item) tc fz
                                     then (0, 0, 0, 0) else item) (im_data (convert_rgba fr)))
        frs (map fst temp_frames)"
proof -
  have "list_all (\<lambda>fr. 0 < im_width (convert_rgba fr) \<or> im_data (convert_rgba fr) = []) frs"
    unfolding list_all_iff
  proof
    fix fr assume "fr \<in> set frs"
    with assms have "length (im_data (convert_rgba fr)) =
        im_width (convert_rgba fr) * im_height (convert_rgba fr)"
      by (simp add: list_all_iff)
    then show "0 < im_width (convert_rgba fr) \<or> im_data (convert_rgba fr) = []"
      by (cases "im_width (convert_rgba fr)") simp_all
  qed
  from transparency_pass_total [OF this] obtain bx' temp_frames where
    tp: "transparency_pass tc fz frs bx [] = Inr (bx', temp_frames)"
    by blast
  from transparency_pass_temp_frames [OF tp]
  have "map fst temp_frames = map (\<lambda>fr. fst (pass_frame tc fz fr)) frs"
    by simp
  then have "list_all2 (\<lambda>fr out.
          im_width out = im_width (convert_rgba fr) \<and>
          im_height out = im_height (convert_rgba fr) \<and>
          im_data out = map (\<lambda>item. if color_within_fuzz (rgb_of item) tc fz
                                     then (0, 0, 0, 0) else item) (im_data (convert_rgba fr)))
        frs (map fst temp_frames)"
    by (simp add: list_all2_map2 list_all2_same pass_frame_def transparent_or_copy_def
        cong: map_cong)
  with tp show ?thesis by blast
qed

theorem transparency_pass_frames_witness:
  "list_all (\<lambda>fr. length (im_data (convert_rgba fr)) =
      im_width (convert_rgba fr) * im_height (convert_rgba fr)) (frames example_gif)
   \<and> (\<exists>bx' temp_frames.
      transparency_pass (1, 2, 3) 0 (frames example_gif) (initial_bbox example_gif) []
        = Inr (bx', temp_frames) \<and>
      list_all2 (\<lambda>fr out.
          im_width out = im_width (convert_rgba fr) \<and>
          im_height out = im_height (convert_rgba fr) \<and>
          im_data out = map (\<lambda>item. if color_within_fuzz (rgb_of item) (1, 2, 3) 0
                                     then (0, 0, 0, 0) else item) (im_data (convert_rgba fr)))
        (frames example_gif) (map fst temp_frames))"
proof -
  have h: "list_all (\<lambda>fr. length (im_data (convert_rgba fr)) =
      im_width (convert_rgba fr) * im_height (convert_rgba fr)) (frames example_gif)"
    by (simp add: example_gif_def)
  from h transparency_pass_frames
    [OF h, where tc = "(1, 2, 3)" and fz = 0 and bx = "initial_bbox example_gif"]
  show ?thesis by (intro conjI)
qed

text \<open>
  Claim C7. For a well-formed image in which some pixel of some frame is not background,
  and a quantizer that returns no more indices than the cropped frame has pixels, the
  run succeeds, and the durations handed to \<^verbatim>\<open>save\<close> are the durations of the
  input frames, element for element and in the same order, with 100 milliseconds for a
  frame whose \<^verbatim>\<open>info\<close> has no duration; there are as many saved frames as input
  frames.
\<close>

theorem durations_preserved:
  assumes "wf_gif img"
    and "\<exists>fr \<in> set (frames img). \<exists>item \<in> set (im_data (convert_rgba fr)).
        \<not> color_within_fuzz (rgb_of item) tc fz"
    and "\<forall>cropped. length (snd (quantize cropped)) \<le> length (im_data cropped)"
  shows "\<exists>out. process_gif quantize (Some img) (Some tc) fz = Inr out \<and>
      saved_duration out =
        map (\<lambda>fr. case info_duration fr of None \<Rightarrow> 100 | Some d \<Rightarrow> d) (frames img) \<and>
      length (saved_frames out) = length (frames img)"
proof -
  from process_gif_total [OF assms] obtain out where
    out: "process_gif quantize (Some img) (Some tc) fz = Inr out" by blast
  from process_gif_durations [OF out] out show ?thesis by blast
qed

theorem durations_preserved_witness:
  "wf_gif example_gif
   \<and> (\<exists>fr \<in> set (frames example_gif). \<exists>item \<in> set (im_data (convert_rgba fr)).
        \<not> color_within_fuzz (rgb_of item) (1, 2, 3) 0)
   \<and> (\<forall>cropped. length (snd (example_quantizer cropped)) \<le> length (im_data cropped))
   \<and> (\<exists>out. process_gif example_quantizer (Some example_gif) (Some (1, 2, 3)) 0 = Inr out \<and>
      saved_duration out =
        map (\<lambda>fr. case info_duration fr of None \<Rightarrow> 100 | Some d \<Rightarrow> d) (frames example_gif) \<and>
      length (saved_frames out) = length (frames example_gif))"
  using example_wf example_foreground example_quantizer_length
    durations_preserved [OF example_wf example_foreground example_quantizer_length]
  by (intro conjI)




end
